theory Spec2Isabelle
  imports Complex_Main
begin

section \<open>Vibrato by a modulated fractional delay line (\<open>comparison_gen.py\<close>)\<close>

text \<open>
  The development embeds the functions \<open>vibrato\<close> and \<open>process_audio_file\<close> of
  \<open>comparison_gen.py\<close>. File decoding and encoding (\<open>sf.read\<close>, \<open>sf.write\<close>) and the
  spectrogram plotting are library calls outside the embedding.

  Numbers. A Python or numpy float is a value of \<open>pyfloat\<close>: a finite value, carried as
  a real number, an infinity, or NaN. Finite arithmetic is exact here (no rounding to
  binary64, no overflow to infinity, no signed zero); the special values follow IEEE 754.
  Python integers are \<open>int\<close>; \<open>np.int64\<close> is \<open>int\<close> as well, without the 64-bit range.

  Rounding and the sample counts. The exact product \<open>Width * SAMPLERATE\<close> and its binary64
  value can round to different integers when the product lies within rounding error of a
  half-integer. The property about the values the loop writes is therefore stated for every
  non-negative sample count \<open>DELAY = WIDTH\<close>, whichever one lines 9 and 10 produce, and
  tied to \<open>vibrato\<close> where the product is a whole number up to \<open>2^53\<close>, which binary64
  computes exactly.
\<close>

subsection \<open>Floats and the exceptions the code can raise\<close>

datatype pyfloat = Fin real | PInf | NInf | NaN

datatype error =
    RoundNaN            \<comment> \<open>\<open>round(nan)\<close>: ValueError, cannot convert float NaN to integer\<close>
  | RoundInf            \<comment> \<open>\<open>round(inf)\<close>: OverflowError, cannot convert float infinity to integer\<close>
  | WidthGreaterDelay   \<comment> \<open>line 12: ValueError("Width greater than basic delay !!!")\<close>
  | ZeroDivisionError   \<comment> \<open>float division by zero\<close>
  | NegativeDimensions  \<comment> \<open>\<open>np.zeros(L)\<close> with \<open>L < 0\<close>: ValueError\<close>
  | IndexError          \<comment> \<open>index out of bounds for an array axis\<close>
  | ZeroIteration       \<comment> \<open>\<open>np.apply_along_axis\<close> over no slice at all: ValueError\<close>

fun fneg :: "pyfloat \<Rightarrow> pyfloat" where
  "fneg (Fin a) = Fin (- a)"
| "fneg PInf = NInf"
| "fneg NInf = PInf"
| "fneg NaN = NaN"

fun fadd :: "pyfloat \<Rightarrow> pyfloat \<Rightarrow> pyfloat" where
  "fadd (Fin a) (Fin b) = Fin (a + b)"
| "fadd (Fin a) PInf = PInf"
| "fadd (Fin a) NInf = NInf"
| "fadd PInf (Fin b) = PInf"
| "fadd NInf (Fin b) = NInf"
| "fadd PInf PInf = PInf"
| "fadd NInf NInf = NInf"
| "fadd PInf NInf = NaN"
| "fadd NInf PInf = NaN"
| "fadd NaN b = NaN"
| "fadd (Fin a) NaN = NaN"
| "fadd PInf NaN = NaN"
| "fadd NInf NaN = NaN"

definition fsub :: "pyfloat \<Rightarrow> pyfloat \<Rightarrow> pyfloat" where
  "fsub a b = fadd a (fneg b)"

definition inf_of_sign :: "real \<Rightarrow> pyfloat" where
  "inf_of_sign s = (if s = 0 then NaN else if 0 < s then PInf else NInf)"

fun fmul :: "pyfloat \<Rightarrow> pyfloat \<Rightarrow> pyfloat" where
  "fmul (Fin a) (Fin b) = Fin (a * b)"
| "fmul (Fin a) PInf = inf_of_sign a"
| "fmul (Fin a) NInf = inf_of_sign (- a)"
| "fmul PInf (Fin b) = inf_of_sign b"
| "fmul NInf (Fin b) = inf_of_sign (- b)"
| "fmul PInf PInf = PInf"
| "fmul NInf NInf = PInf"
| "fmul PInf NInf = NInf"
| "fmul NInf PInf = NInf"
| "fmul NaN b = NaN"
| "fmul (Fin a) NaN = NaN"
| "fmul PInf NaN = NaN"
| "fmul NInf NaN = NaN"

text \<open>
  Python's \<open>a / b\<close> on floats (and on a float and an int): a zero divisor raises
  ZeroDivisionError whatever the dividend is.
\<close>

fun fdiv :: "pyfloat \<Rightarrow> pyfloat \<Rightarrow> error + pyfloat" where
  "fdiv (Fin a) (Fin b) = (if b = 0 then Inl ZeroDivisionError else Inr (Fin (a / b)))"
| "fdiv PInf (Fin b) = (if b = 0 then Inl ZeroDivisionError else Inr (inf_of_sign b))"
| "fdiv NInf (Fin b) = (if b = 0 then Inl ZeroDivisionError else Inr (inf_of_sign (- b)))"
| "fdiv NaN (Fin b) = (if b = 0 then Inl ZeroDivisionError else Inr NaN)"
| "fdiv (Fin a) PInf = Inr (Fin 0)"
| "fdiv (Fin a) NInf = Inr (Fin 0)"
| "fdiv PInf PInf = Inr NaN"
| "fdiv PInf NInf = Inr NaN"
| "fdiv NInf PInf = Inr NaN"
| "fdiv NInf NInf = Inr NaN"
| "fdiv NaN PInf = Inr NaN"
| "fdiv NaN NInf = Inr NaN"
| "fdiv a NaN = Inr NaN"

text \<open>Python 3 \<open>round(x)\<close> of a float: to the nearest integer, a tie to the even one.\<close>

definition round_half_even :: "real \<Rightarrow> int" where
  "round_half_even r =
     (let f = \<lfloor>r\<rfloor>; d = r - of_int f
      in if d < 1 / 2 then f else if 1 / 2 < d then f + 1 else if even f then f else f + 1)"

fun py_round :: "pyfloat \<Rightarrow> error + int" where
  "py_round (Fin r) = Inr (round_half_even r)"
| "py_round PInf = Inl RoundInf"
| "py_round NInf = Inl RoundInf"
| "py_round NaN = Inl RoundNaN"

fun np_sin :: "pyfloat \<Rightarrow> pyfloat" where
  "np_sin (Fin a) = Fin (sin a)"
| "np_sin PInf = NaN"
| "np_sin NInf = NaN"
| "np_sin NaN = NaN"

fun np_floor :: "pyfloat \<Rightarrow> pyfloat" where
  "np_floor (Fin a) = Fin (of_int \<lfloor>a\<rfloor>)"
| "np_floor PInf = PInf"
| "np_floor NInf = NInf"
| "np_floor NaN = NaN"

text \<open>
  \<open>.astype(int)\<close>: a finite value is truncated toward zero. The cast of NaN or of an
  infinity is the value numpy gives on x86-64, the least 64-bit integer.
\<close>

fun astype_int :: "pyfloat \<Rightarrow> int" where
  "astype_int (Fin a) = (if 0 \<le> a then \<lfloor>a\<rfloor> else \<lceil>a\<rceil>)"
| "astype_int PInf = - (2 ^ 63)"
| "astype_int NInf = - (2 ^ 63)"
| "astype_int NaN = - (2 ^ 63)"

subsection \<open>Arrays\<close>

text \<open>
  \<open>a[idx]\<close> on a one-dimensional array of length \<open>len\<close>: an index in \<open>[-len, len)\<close> is
  accepted, a negative one counting from the end; any other raises IndexError.
\<close>

definition np_index :: "'a list \<Rightarrow> int \<Rightarrow> error + 'a" where
  "np_index a idx =
     (if 0 \<le> idx \<and> idx < int (length a) then Inr (a ! nat idx)
      else if idx < 0 \<and> - int (length a) \<le> idx then Inr (a ! nat (int (length a) + idx))
      else Inl IndexError)"

definition np_setitem :: "'a list \<Rightarrow> int \<Rightarrow> 'a \<Rightarrow> error + 'a list" where
  "np_setitem a idx v =
     (if 0 \<le> idx \<and> idx < int (length a) then Inr (a[nat idx := v])
      else if idx < 0 \<and> - int (length a) \<le> idx then Inr (a[nat (int (length a) + idx) := v])
      else Inl IndexError)"

text \<open>\<open>a[:k]\<close>: the first \<open>k\<close> elements, or all but the last \<open>-k\<close> when \<open>k\<close> is negative.\<close>

definition slice_to :: "'a list \<Rightarrow> int \<Rightarrow> 'a list" where
  "slice_to a k = (if 0 \<le> k then take (nat k) a else take (nat (int (length a) + k)) a)"

definition np_zeros :: "int \<Rightarrow> error + pyfloat list" where
  "np_zeros k = (if k < 0 then Inl NegativeDimensions else Inr (replicate (nat k) (Fin 0)))"

definition zeros_like :: "pyfloat list \<Rightarrow> pyfloat list" where
  "zeros_like a = replicate (length a) (Fin 0)"

definition py_range :: "int \<Rightarrow> nat list" where
  "py_range k = (if k \<le> 0 then [] else [0 ..< nat k])"

subsection \<open>\<open>vibrato\<close>\<close>

text \<open>Lines 21 to 25: the tap position of sample \<open>n\<close>, its integer part and its fraction.\<close>

definition tap_of :: "int \<Rightarrow> int \<Rightarrow> pyfloat \<Rightarrow> nat \<Rightarrow> pyfloat" where
  "tap_of DELAY WIDTH MODFREQ n =
     (let M = MODFREQ;
          MOD = np_sin (fmul (fmul (fmul M (Fin 2)) (Fin pi)) (Fin (real n)))
      in fadd (Fin (of_int DELAY)) (fmul (Fin (of_int WIDTH)) MOD))"

definition tap_index :: "pyfloat \<Rightarrow> int" where
  "tap_index TAP = astype_int (np_floor TAP)"

definition tap_frac :: "pyfloat \<Rightarrow> pyfloat" where
  "tap_frac TAP = fsub TAP (Fin (of_int (tap_index TAP)))"

text \<open>Line 26: the new sample goes to index 0, the sample at index \<open>L - 1\<close> is dropped.\<close>

definition push :: "int \<Rightarrow> pyfloat list \<Rightarrow> pyfloat \<Rightarrow> pyfloat list" where
  "push L Delayline s = [s] @ slice_to Delayline (L - 1)"

text \<open>
  Line 28, the right-hand side (\<open>frc\<close> is the source's \<open>frac\<close>). Python evaluates \<open>Delayline[i]\<close> first, so its IndexError
  wins over that of \<open>Delayline[i - 1]\<close>.
\<close>

definition interpolate :: "pyfloat list \<Rightarrow> int \<Rightarrow> pyfloat \<Rightarrow> error + pyfloat" where
  "interpolate Delayline i frc =
     (case np_index Delayline i of
        Inl e \<Rightarrow> Inl e
      | Inr a \<Rightarrow>
          (case np_index Delayline (i - 1) of
             Inl e \<Rightarrow> Inl e
           | Inr b \<Rightarrow> Inr (fadd (fmul a frc) (fmul b (fsub (Fin 1) frc)))))"

text \<open>One pass of the loop body, lines 21 to 28, on the state \<open>(Delayline, y)\<close>.\<close>

definition loop_body ::
  "int \<Rightarrow> int \<Rightarrow> pyfloat \<Rightarrow> int \<Rightarrow> pyfloat list \<Rightarrow> nat \<Rightarrow>
   pyfloat list \<times> pyfloat list \<Rightarrow> error + pyfloat list \<times> pyfloat list" where
  "loop_body DELAY WIDTH MODFREQ L x n st =
     (let TAP = tap_of DELAY WIDTH MODFREQ n;
          i = tap_index TAP;
          frc = tap_frac TAP
      in case np_index x (int n) of
           Inl e \<Rightarrow> Inl e
         | Inr xn \<Rightarrow>
             (let Delayline = push L (fst st) xn
              in case interpolate Delayline i frc of
                   Inl e \<Rightarrow> Inl e
                 | Inr v \<Rightarrow>
                     (case np_setitem (snd st) (int n) v of
                        Inl e \<Rightarrow> Inl e
                      | Inr y \<Rightarrow> Inr (Delayline, y))))"

fun vibrato_loop ::
  "int \<Rightarrow> int \<Rightarrow> pyfloat \<Rightarrow> int \<Rightarrow> pyfloat list \<Rightarrow> nat list \<Rightarrow>
   pyfloat list \<times> pyfloat list \<Rightarrow> error + pyfloat list \<times> pyfloat list" where
  "vibrato_loop DELAY WIDTH MODFREQ L x [] st = Inr st"
| "vibrato_loop DELAY WIDTH MODFREQ L x (n # ns) st =
     (case loop_body DELAY WIDTH MODFREQ L x n st of
        Inl e \<Rightarrow> Inl e
      | Inr st' \<Rightarrow> vibrato_loop DELAY WIDTH MODFREQ L x ns st')"

text \<open>Lines 11 to 30: the function from the guard on, with \<open>DELAY\<close> and \<open>WIDTH\<close> given.\<close>

definition vibrato_body ::
  "pyfloat list \<Rightarrow> pyfloat \<Rightarrow> pyfloat \<Rightarrow> int \<Rightarrow> int \<Rightarrow> error + pyfloat list" where
  "vibrato_body x SAMPLERATE Modfreq DELAY WIDTH =
     (if DELAY < WIDTH then Inl WidthGreaterDelay
      else case fdiv Modfreq SAMPLERATE of
             Inl e \<Rightarrow> Inl e
           | Inr MODFREQ \<Rightarrow>
               (let LEN = int (length x);
                    L = 2 + DELAY + WIDTH * 2
                in case np_zeros L of
                     Inl e \<Rightarrow> Inl e
                   | Inr Delayline \<Rightarrow>
                       (case vibrato_loop DELAY WIDTH MODFREQ L x (py_range (LEN - 1))
                               (Delayline, zeros_like x) of
                          Inl e \<Rightarrow> Inl e
                        | Inr st \<Rightarrow> Inr (snd st))))"

text \<open>Lines 7 to 10, then the rest.\<close>

definition vibrato ::
  "pyfloat list \<Rightarrow> pyfloat \<Rightarrow> pyfloat \<Rightarrow> pyfloat \<Rightarrow> error + pyfloat list" where
  "vibrato x SAMPLERATE Modfreq Width =
     (let Delay = Width
      in case py_round (fmul Delay SAMPLERATE) of
           Inl e \<Rightarrow> Inl e
         | Inr DELAY \<Rightarrow>
             (case py_round (fmul Width SAMPLERATE) of
                Inl e \<Rightarrow> Inl e
              | Inr WIDTH \<Rightarrow> vibrato_body x SAMPLERATE Modfreq DELAY WIDTH))"

subsection \<open>\<open>process_audio_file\<close>\<close>

text \<open>
  The decoded data is one array: one-dimensional for a single channel, and for several
  channels two-dimensional with one column per channel, kept here as the list of its
  columns. \<open>np.apply_along_axis(f, 0, data, ...)\<close> calls \<open>f\<close> on each column in turn, the
  first exception ending the call, and raises ValueError when there is no column.
\<close>

datatype audio = Mono "pyfloat list" | Multi "pyfloat list list"

fun each_column :: "('a \<Rightarrow> error + 'b) \<Rightarrow> 'a list \<Rightarrow> error + 'b list" where
  "each_column f [] = Inr []"
| "each_column f (c # cs) =
     (case f c of
        Inl e \<Rightarrow> Inl e
      | Inr r \<Rightarrow> (case each_column f cs of Inl e \<Rightarrow> Inl e | Inr rs \<Rightarrow> Inr (r # rs)))"

definition apply_along_axis :: "('a \<Rightarrow> error + 'b) \<Rightarrow> 'a list \<Rightarrow> error + 'b list" where
  "apply_along_axis f columns = (if columns = [] then Inl ZeroIteration else each_column f columns)"

text \<open>Lines 36 to 43, from the decoded data to the data handed to \<open>sf.write\<close>.\<close>

definition process_audio_file :: "audio \<Rightarrow> pyfloat \<Rightarrow> pyfloat \<Rightarrow> pyfloat \<Rightarrow> error + audio" where
  "process_audio_file data samplerate Modfreq Width =
     (case data of
        Multi columns \<Rightarrow>
          (case apply_along_axis (\<lambda>c. vibrato c samplerate Modfreq Width) columns of
             Inl e \<Rightarrow> Inl e
           | Inr processed_data \<Rightarrow> Inr (Multi processed_data))
      | Mono x \<Rightarrow>
          (case vibrato x samplerate Modfreq Width of
             Inl e \<Rightarrow> Inl e
           | Inr processed_data \<Rightarrow> Inr (Mono processed_data)))"

subsection \<open>Notions the properties are stated with\<close>

text \<open>
  The delay line once \<open>x[0]\<close> to \<open>x[n]\<close> have been pushed, in this order, into a line of
  \<open>L\<close> zeros: the state on which pass \<open>n\<close> of the loop reads its two taps.
\<close>

definition delay_state :: "int \<Rightarrow> pyfloat list \<Rightarrow> nat \<Rightarrow> pyfloat list" where
  "delay_state L x n = foldl (push L) (replicate (nat L) (Fin 0)) (take (Suc n) x)"

text \<open>The tap position of sample \<open>n\<close> for finite parameters, as a real number.\<close>

definition tap_real :: "int \<Rightarrow> real \<Rightarrow> nat \<Rightarrow> real" where
  "tap_real d m n = real_of_int d + real_of_int d * sin (m * 2 * pi * real n)"

text \<open>
  The value written to \<open>y[n]\<close> when both reads succeed; the index \<open>i - 1\<close> is taken
  modulo the length, which is what the array does with \<open>-1\<close>.
\<close>

definition sample_at :: "int \<Rightarrow> real \<Rightarrow> pyfloat list \<Rightarrow> nat \<Rightarrow> pyfloat" where
  "sample_at d m D n =
     (let t = tap_real d m n; i = \<lfloor>t\<rfloor>; fr = Fin (t - of_int i)
      in fadd (fmul (D ! nat i) fr)
              (fmul (D ! nat ((i - 1) mod int (length D))) (fsub (Fin 1) fr)))"

fun nonfinite :: "pyfloat \<Rightarrow> bool" where
  "nonfinite (Fin a) = False"
| "nonfinite PInf = True"
| "nonfinite NInf = True"
| "nonfinite NaN = True"

section \<open>Which exception can come from where\<close>

lemma fdiv_error: "fdiv a b = Inl e \<Longrightarrow> e = ZeroDivisionError"
  by (cases a; cases b) (auto split: if_splits)

lemma np_index_error: "np_index a i = Inl e \<Longrightarrow> e = IndexError"
  by (auto simp: np_index_def split: if_splits)

lemma np_setitem_error: "np_setitem a i v = Inl e \<Longrightarrow> e = IndexError"
  by (auto simp: np_setitem_def split: if_splits)

lemma interpolate_error: "interpolate D i fr = Inl e \<Longrightarrow> e = IndexError"
  by (auto simp: interpolate_def split: sum.splits dest: np_index_error)

lemma loop_body_error: "loop_body D W M L x n st = Inl e \<Longrightarrow> e = IndexError"
  by (auto simp: loop_body_def Let_def split: sum.splits
      dest: np_index_error np_setitem_error interpolate_error)

lemma vibrato_loop_error: "vibrato_loop D W M L x ns st = Inl e \<Longrightarrow> e = IndexError"
  by (induction ns arbitrary: st) (auto split: sum.splits dest: loop_body_error)

lemma vibrato_body_same: "vibrato_body x SR Mf d d \<noteq> Inl WidthGreaterDelay"
  by (auto simp: vibrato_body_def np_zeros_def Let_def split: sum.splits if_splits
      dest: fdiv_error vibrato_loop_error)

lemma py_round_error: "py_round a \<noteq> Inl WidthGreaterDelay"
  by (cases a) auto

section \<open>The loop on finite parameters\<close>

lemma length_push: "1 \<le> L \<Longrightarrow> length D = nat L \<Longrightarrow> length (push L D s) = nat L"
  by (simp add: push_def slice_to_def)

lemma length_foldl_push:
  "1 \<le> L \<Longrightarrow> length D = nat L \<Longrightarrow> length (foldl (push L) D xs) = nat L"
  by (induction xs arbitrary: D) (simp_all add: length_push)

lemma tap_of_fin:
  "tap_of d d (Fin m) n = Fin (tap_real d m n)"
  by (simp add: tap_of_def tap_real_def)

lemma tap_real_bounds:
  assumes "0 \<le> d"
  shows "0 \<le> tap_real d m n" and "tap_real d m n \<le> 2 * real_of_int d"
proof -
  let ?s = "sin (m * 2 * pi * real n)"
  have "real_of_int d * (- 1) \<le> real_of_int d * ?s"
    using assms by (intro mult_left_mono) simp_all
  then show "0 \<le> tap_real d m n" by (simp add: tap_real_def)
  have "real_of_int d * ?s \<le> real_of_int d * 1"
    using assms by (intro mult_left_mono) simp_all
  then show "tap_real d m n \<le> 2 * real_of_int d" by (simp add: tap_real_def)
qed

lemma tap_floor_bounds:
  assumes "0 \<le> d"
  shows "0 \<le> \<lfloor>tap_real d m n\<rfloor>" and "\<lfloor>tap_real d m n\<rfloor> \<le> 2 * d"
proof -
  show "0 \<le> \<lfloor>tap_real d m n\<rfloor>" using tap_real_bounds(1) [OF assms] by simp
  have "tap_real d m n < real_of_int (2 * d) + 1" using tap_real_bounds(2) [OF assms, of m n] by simp
  then show "\<lfloor>tap_real d m n\<rfloor> \<le> 2 * d" by (simp only: floor_le_iff)
qed

lemma tap_index_fin: "0 \<le> t \<Longrightarrow> tap_index (Fin t) = \<lfloor>t\<rfloor>"
  by (simp add: tap_index_def)

lemma tap_frac_fin: "0 \<le> t \<Longrightarrow> tap_frac (Fin t) = Fin (t - of_int \<lfloor>t\<rfloor>)"
  by (simp add: tap_frac_def tap_index_fin fsub_def)

lemma np_index_nonneg: "0 \<le> i \<Longrightarrow> i < int (length D) \<Longrightarrow> np_index D i = Inr (D ! nat i)"
  by (simp add: np_index_def)

lemma np_index_below:
  assumes "0 \<le> i" and "i < int (length D)"
  shows "np_index D (i - 1) = Inr (D ! nat ((i - 1) mod int (length D)))"
proof (cases "i = 0")
  case True
  with assms have pos: "0 < int (length D)" by simp
  then have "(- 1) mod int (length D) = int (length D) - 1"
    by (simp add: zmod_minus1)
  moreover have "np_index D (- 1) = Inr (D ! nat (int (length D) - 1))"
    using pos by (simp add: np_index_def Suc_le_eq)
  ultimately show ?thesis using True by simp
next
  case False
  with assms have "0 \<le> i - 1" "i - 1 < int (length D)" by simp_all
  then show ?thesis by (simp add: np_index_def)
qed

lemma interpolate_ok:
  "0 \<le> i \<Longrightarrow> i < int (length D) \<Longrightarrow>
   interpolate D i fr =
     Inr (fadd (fmul (D ! nat i) fr)
               (fmul (D ! nat ((i - 1) mod int (length D))) (fsub (Fin 1) fr)))"
  by (simp add: interpolate_def np_index_nonneg np_index_below)

lemma loop_body_ok:
  assumes d: "0 \<le> d" and n: "n < length x"
    and D: "length Dl = nat L" and L: "2 * d < L" and y: "length y = length x"
  shows "loop_body d d (Fin m) L x n (Dl, y) =
           Inr (push L Dl (x ! n), y[n := sample_at d m (push L Dl (x ! n)) n])"
proof -
  let ?D = "push L Dl (x ! n)"
  have len: "length ?D = nat L" using d D L by (intro length_push) simp_all
  have i0: "0 \<le> \<lfloor>tap_real d m n\<rfloor>" and i1: "\<lfloor>tap_real d m n\<rfloor> < int (length ?D)"
    using tap_floor_bounds [OF d, of m n] d len L by simp_all
  have t0: "0 \<le> tap_real d m n" by (rule tap_real_bounds(1) [OF d])
  have xn: "np_index x (int n) = Inr (x ! n)" using n by (simp add: np_index_def)
  have st: "np_setitem y (int n) v = Inr (y[n := v])" for v
    using n y by (simp add: np_setitem_def)
  show ?thesis
    by (simp add: loop_body_def Let_def tap_of_fin tap_index_fin [OF t0] tap_frac_fin [OF t0]
        xn st interpolate_ok [OF i0 i1] sample_at_def)
qed

lemma vibrato_loop_snoc:
  "vibrato_loop D W M L x (ns @ [n]) st =
     (case vibrato_loop D W M L x ns st of
        Inl e \<Rightarrow> Inl e
      | Inr st' \<Rightarrow> loop_body D W M L x n st')"
  by (induction ns arbitrary: st) (auto split: sum.splits)

lemma loop_invariant:
  assumes d: "0 \<le> d" and L: "2 * d < L"
  shows "k \<le> length x \<Longrightarrow>
    \<exists>y. vibrato_loop d d (Fin m) L x [0 ..< k] (replicate (nat L) (Fin 0), zeros_like x) =
         Inr (foldl (push L) (replicate (nat L) (Fin 0)) (take k x), y)
       \<and> length y = length x
       \<and> (\<forall>n < k. y ! n = sample_at d m (delay_state L x n) n)
       \<and> (\<forall>n. k \<le> n \<and> n < length x \<longrightarrow> y ! n = Fin 0)"
proof (induction k)
  case 0
  then show ?case by (simp add: zeros_like_def)
next
  case (Suc k)
  let ?Z = "replicate (nat L) (Fin 0)"
  from Suc.prems have k: "k < length x" by simp
  with Suc.IH obtain y where
    run: "vibrato_loop d d (Fin m) L x [0 ..< k] (?Z, zeros_like x) =
            Inr (foldl (push L) ?Z (take k x), y)"
    and ly: "length y = length x"
    and sofar: "\<forall>n < k. y ! n = sample_at d m (delay_state L x n) n"
    and rest: "\<forall>n. k \<le> n \<and> n < length x \<longrightarrow> y ! n = Fin 0"
    by auto
  let ?Dk = "foldl (push L) ?Z (take k x)"
  have lD: "length ?Dk = nat L" using d L by (intro length_foldl_push) simp_all
  have nxt: "push L ?Dk (x ! k) = delay_state L x k"
    using k by (simp add: delay_state_def take_Suc_conv_app_nth)
  have body: "loop_body d d (Fin m) L x k (?Dk, y) =
                Inr (delay_state L x k, y[k := sample_at d m (delay_state L x k) k])"
    using loop_body_ok [OF d k lD L ly, of m] by (simp only: nxt)
  let ?y = "y[k := sample_at d m (delay_state L x k) k]"
  have "vibrato_loop d d (Fin m) L x [0 ..< Suc k] (?Z, zeros_like x) =
          Inr (foldl (push L) ?Z (take (Suc k) x), ?y)"
    using run body by (simp add: vibrato_loop_snoc delay_state_def)
  moreover have "length ?y = length x" using ly by simp
  moreover have "\<forall>n < Suc k. ?y ! n = sample_at d m (delay_state L x n) n"
    using sofar k ly by (auto simp: less_Suc_eq nth_list_update)
  moreover have "\<forall>n. Suc k \<le> n \<and> n < length x \<longrightarrow> ?y ! n = Fin 0"
    using rest by (auto simp: nth_list_update)
  ultimately show ?case by blast
qed

lemma vibrato_body_finite:
  assumes sr: "sr \<noteq> 0" and d0: "0 \<le> d"
  shows "\<exists>y. vibrato_body x (Fin sr) (Fin mf) d d = Inr y
       \<and> length y = length x
       \<and> (\<forall>n. Suc n < length x \<longrightarrow>
            y ! n = sample_at d (mf / sr) (delay_state (2 + d + d * 2) x n) n)
       \<and> (\<forall>n. length x - 1 \<le> n \<and> n < length x \<longrightarrow> y ! n = Fin 0)"
proof -
  define L where "L = 2 + d + d * 2"
  have L2: "2 * d < L" and L0: "\<not> L < 0" using d0 by (simp_all add: L_def)
  have rng: "py_range (int (length x) - 1) = [0 ..< length x - 1]"
    by (auto simp: py_range_def nat_diff_distrib')
  from loop_invariant [OF d0 L2, of "length x - 1" x "mf / sr"] obtain y where
    run: "vibrato_loop d d (Fin (mf / sr)) L x [0 ..< length x - 1]
            (replicate (nat L) (Fin 0), zeros_like x) =
          Inr (foldl (push L) (replicate (nat L) (Fin 0)) (take (length x - 1) x), y)"
    and ly: "length y = length x"
    and sofar: "\<forall>n < length x - 1. y ! n = sample_at d (mf / sr) (delay_state L x n) n"
    and rest: "\<forall>n. length x - 1 \<le> n \<and> n < length x \<longrightarrow> y ! n = Fin 0"
    by auto
  have "vibrato_body x (Fin sr) (Fin mf) d d = Inr y"
    unfolding vibrato_body_def Let_def L_def [symmetric]
    using sr L0 run by (simp add: np_zeros_def rng)
  with ly sofar rest show ?thesis unfolding L_def by auto
qed

lemma vibrato_finite:
  assumes sr: "sr \<noteq> 0" and d: "0 \<le> round_half_even (w * sr)"
  shows "\<exists>y. vibrato x (Fin sr) (Fin mf) (Fin w) = Inr y
       \<and> length y = length x
       \<and> (\<forall>n. Suc n < length x \<longrightarrow>
            y ! n = sample_at (round_half_even (w * sr)) (mf / sr)
                      (delay_state (2 + round_half_even (w * sr) + round_half_even (w * sr) * 2) x n) n)
       \<and> (\<forall>n. length x - 1 \<le> n \<and> n < length x \<longrightarrow> y ! n = Fin 0)"
proof -
  have "vibrato x (Fin sr) (Fin mf) (Fin w) =
        vibrato_body x (Fin sr) (Fin mf) (round_half_even (w * sr)) (round_half_even (w * sr))"
    by (simp add: vibrato_def Let_def)
  then show ?thesis using vibrato_body_finite [OF sr d, of x mf] by simp
qed

lemma vibrato_at_whole_width:
  "w * sr = real_of_int d \<Longrightarrow>
   vibrato x (Fin sr) Modfreq (Fin w) = vibrato_body x (Fin sr) Modfreq d d"
  by (simp add: vibrato_def Let_def round_half_even_def)

section \<open>The guard on the modulation width\<close>

text \<open>
  C10. Lines 8 to 10 compute \<open>DELAY\<close> and \<open>WIDTH\<close> by the same expression
  \<open>round(Width * SAMPLERATE)\<close>, so the two are equal on every input: \<open>vibrato\<close> is the
  rest of the function run with one and the same value for both, the guard
  \<open>WIDTH > DELAY\<close> never holds, and no input at all makes \<open>vibrato\<close> raise
  "Width greater than basic delay".
\<close>

theorem width_guard_unreachable:
  "vibrato x SAMPLERATE Modfreq Width \<noteq> Inl WidthGreaterDelay \<and>
   vibrato x SAMPLERATE Modfreq Width =
     (case py_round (fmul Width SAMPLERATE) of
        Inl e \<Rightarrow> Inl e
      | Inr WIDTH \<Rightarrow> vibrato_body x SAMPLERATE Modfreq WIDTH WIDTH)"
  by (auto simp: vibrato_def Let_def vibrato_body_same py_round_error split: sum.splits)

section \<open>Reading the delay line\<close>



section \<open>The state of the delay line\<close>

text \<open>
  After \<open>x[0]\<close> to \<open>x[n]\<close> have been pushed, slot \<open>k\<close> of the line holds \<open>x[n - k]\<close>, and
  zero where the input has not reached yet.
\<close>

lemma delay_state_Suc:
  "Suc n < length x \<Longrightarrow> delay_state L x (Suc n) = push L (delay_state L x n) (x ! Suc n)"
  by (simp add: delay_state_def take_Suc_conv_app_nth [of "Suc n"])

lemma delay_state_0:
  "0 < length x \<Longrightarrow> delay_state L x 0 = push L (replicate (nat L) (Fin 0)) (x ! 0)"
  by (simp add: delay_state_def take_Suc_conv_app_nth [of 0])

lemma length_delay_state: "1 \<le> L \<Longrightarrow> length (delay_state L x n) = nat L"
  by (simp add: delay_state_def length_foldl_push)

lemma push_nth:
  "1 \<le> L \<Longrightarrow> length D = nat L \<Longrightarrow> k < nat L \<Longrightarrow>
   push L D s ! k = (case k of 0 \<Rightarrow> s | Suc j \<Rightarrow> D ! j)"
  by (cases k) (simp_all add: push_def slice_to_def)

lemma delay_state_nth:
  assumes L: "1 \<le> L"
  shows "n < length x \<Longrightarrow> k < nat L \<Longrightarrow>
         delay_state L x n ! k = (if k \<le> n then x ! (n - k) else Fin 0)"
proof (induction n arbitrary: k)
  case 0
  then show ?case using L by (cases k) (simp_all add: delay_state_0 push_nth)
next
  case (Suc n)
  from Suc.prems have n: "n < length x" by simp
  show ?case
  proof (cases k)
    case 0
    with Suc.prems L show ?thesis
      by (simp add: delay_state_Suc push_nth length_delay_state)
  next
    case (Suc j)
    with Suc.prems have j: "j < nat L" by simp
    have "delay_state L x (Suc n) ! k = delay_state L x n ! j"
      using Suc.prems L Suc by (simp add: delay_state_Suc push_nth length_delay_state)
    also have "\<dots> = (if j \<le> n then x ! (n - j) else Fin 0)"
      by (rule Suc.IH [OF n j])
    finally show ?thesis using Suc by simp
  qed
qed

section \<open>What the loop writes\<close>

text \<open>
  C1. Finite sample rate \<open>sr \<noteq> 0\<close> and modulation frequency \<open>mf\<close>, and any sample count
  \<open>DELAY = WIDTH = d \<ge> 0\<close> that lines 9 and 10 produce (the two are one expression): these
  are the finite parameters on which lines 11 to 18 raise nothing. Then the function
  returns, and for every \<open>n\<close> in \<open>[0, len(x) - 1)\<close> the output is
  \<open>y[n] = D[i] * frac + D[i - 1] * (1 - frac)\<close>, with
  \<open>tap = DELAY + WIDTH * sin(2 * pi * (mf / sr) * n)\<close>, \<open>i = floor(tap)\<close>, \<open>frac = tap - i\<close>
  and \<open>D\<close> the delay line the loop holds at the end of pass \<open>n\<close>, after \<open>x[n]\<close> has been
  pushed: it has \<open>L = 2 + DELAY + 2 * WIDTH\<close> slots, slot \<open>k\<close> holds \<open>x[n - k]\<close> for \<open>k \<le> n\<close>
  and zero beyond, so \<open>D[0] = x[n]\<close> and the push comes before the two reads. \<open>frac\<close>
  weighs index \<open>i\<close> and \<open>1 - frac\<close> weighs index \<open>i - 1\<close>. Both reads are the array's own
  indexing and both succeed; at \<open>i = 0\<close> the second one is \<open>D[-1]\<close>, the last slot of the
  line. For a width \<open>w\<close> of exactly \<open>d\<close> samples, \<open>w * sr = d\<close> with \<open>d \<le> 2^53\<close>, this output
  is what \<open>vibrato\<close> returns.
\<close>

theorem vibrato_output_interpolates:
  assumes "sr \<noteq> 0" and "0 \<le> d" and "Suc n < length x"
  shows "\<exists>y a b. vibrato_body x (Fin sr) (Fin mf) d d = Inr y \<and>
     (w * sr = real_of_int d \<and> d \<le> 2 ^ 53 \<longrightarrow> vibrato x (Fin sr) (Fin mf) (Fin w) = Inr y) \<and>
     (let DELAY = d; WIDTH = d; L = 2 + DELAY + WIDTH * 2;
          tap = real_of_int DELAY + real_of_int WIDTH * sin (2 * pi * (mf / sr) * real n);
          i = \<lfloor>tap\<rfloor>; fr = Fin (tap - of_int i);
          D = delay_state L x n
      in (\<exists>y'. vibrato_loop DELAY WIDTH (Fin (mf / sr)) L x [0 ..< Suc n]
                  (replicate (nat L) (Fin 0), zeros_like x) = Inr (D, y') \<and> y' ! n = y ! n) \<and>
         length D = nat L \<and>
         (\<forall>k < nat L. D ! k = (if k \<le> n then x ! (n - k) else Fin 0)) \<and>
         np_index D i = Inr a \<and> np_index D (i - 1) = Inr b \<and>
         y ! n = fadd (fmul a fr) (fmul b (fsub (Fin 1) fr)))"
proof -
  define L where "L = 2 + d + d * 2"
  define D where "D = delay_state L x n"
  note d0 = assms(2)
  have L1: "1 \<le> L" and L2: "2 * d < L" using d0 by (simp_all add: L_def)
  from vibrato_body_finite [OF assms(1,2), of x mf] assms(3) obtain y where
    y: "vibrato_body x (Fin sr) (Fin mf) d d = Inr y"
    and yn: "y ! n = sample_at d (mf / sr) D n"
    unfolding L_def D_def by blast
  have whole: "vibrato x (Fin sr) (Fin mf) (Fin w) = Inr y" if "w * sr = real_of_int d"
    using y vibrato_at_whole_width [OF that, of x "Fin mf"] by simp
  from loop_invariant [OF d0 L2, of "Suc n" x "mf / sr"] assms(3) obtain y' where
    run: "vibrato_loop d d (Fin (mf / sr)) L x [0 ..< Suc n]
            (replicate (nat L) (Fin 0), zeros_like x) = Inr (D, y')"
    and y'n: "y' ! n = sample_at d (mf / sr) D n"
    unfolding D_def delay_state_def by auto
  have tap: "real_of_int d + real_of_int d * sin (2 * pi * (mf / sr) * real n) = tap_real d (mf / sr) n"
    by (simp add: tap_real_def mult.commute mult.left_commute)
  have lD: "length D = nat L" by (simp add: D_def length_delay_state [OF L1])
  have slots: "\<forall>k < nat L. D ! k = (if k \<le> n then x ! (n - k) else Fin 0)"
    using delay_state_nth [OF L1, of n x] assms(3) by (simp add: D_def)
  have i0: "0 \<le> \<lfloor>tap_real d (mf / sr) n\<rfloor>" and i1: "\<lfloor>tap_real d (mf / sr) n\<rfloor> < int (length D)"
    using tap_floor_bounds [OF d0, of "mf / sr" n] lD L2 d0 by simp_all
  have loopst: "\<exists>y'. vibrato_loop d d (Fin (mf / sr)) L x [0 ..< Suc n]
            (replicate (nat L) (Fin 0), zeros_like x) = Inr (D, y') \<and> y' ! n = y ! n"
    using run y'n yn by auto
  show ?thesis
    unfolding Let_def L_def [symmetric] D_def [symmetric] tap
    using y whole loopst lD slots yn np_index_nonneg [OF i0 i1] np_index_below [OF i0 i1]
    by (auto simp: sample_at_def Let_def)
qed

theorem vibrato_output_interpolates_witness:
  "(4::real) \<noteq> 0 \<and> (0::int) \<le> 1 \<and> Suc 1 < length [Fin 1, Fin 2, Fin 3] \<and>
   (1 / 4 * 4 = real_of_int 1 \<and> (1::int) \<le> 2 ^ 53) \<and>
   (\<exists>y a b. vibrato_body [Fin 1, Fin 2, Fin 3] (Fin 4) (Fin 3) 1 1 = Inr y \<and>
     vibrato [Fin 1, Fin 2, Fin 3] (Fin 4) (Fin 3) (Fin (1 / 4)) = Inr y \<and>
     (let DELAY = 1; WIDTH = 1; L = 2 + DELAY + WIDTH * 2;
          tap = real_of_int DELAY + real_of_int WIDTH * sin (2 * pi * (3 / 4) * real (1::nat));
          i = \<lfloor>tap\<rfloor>; fr = Fin (tap - of_int i);
          D = delay_state L [Fin 1, Fin 2, Fin 3] 1
      in (\<exists>y'. vibrato_loop DELAY WIDTH (Fin (3 / 4)) L [Fin 1, Fin 2, Fin 3] [0 ..< Suc 1]
                  (replicate (nat L) (Fin 0), zeros_like [Fin 1, Fin 2, Fin 3]) = Inr (D, y') \<and>
                y' ! 1 = y ! 1) \<and>
         length D = nat L \<and>
         (\<forall>k < nat L. D ! k = (if k \<le> 1 then [Fin 1, Fin 2, Fin 3] ! (1 - k) else Fin 0)) \<and>
         np_index D i = Inr a \<and> np_index D (i - 1) = Inr b \<and>
         y ! 1 = fadd (fmul a fr) (fmul b (fsub (Fin 1) fr))))"
proof -
  have h1: "(4::real) \<noteq> 0" by simp
  have h2: "(0::int) \<le> 1" by simp
  have h3: "Suc 1 < length [Fin 1, Fin 2, Fin 3]" by simp
  have h4: "(1 / 4 * 4 = real_of_int 1 \<and> (1::int) \<le> 2 ^ 53)" by simp
  from vibrato_output_interpolates [OF h1 h2 h3, of 3 "1 / 4"] h1 h2 h3 h4 show ?thesis by blast
qed

text \<open>
  C6. On the same parameters and a non-empty input, the loop runs over \<open>range(LEN - 1)\<close>
  only, and the last output slot keeps the zero it was allocated with, whatever the samples
  are.
\<close>

theorem vibrato_last_sample_zero:
  assumes "sr \<noteq> 0" and "0 \<le> round_half_even (w * sr)" and "x \<noteq> []"
  shows "\<exists>y. vibrato x (Fin sr) (Fin mf) (Fin w) = Inr y \<and> length y = length x \<and>
             y ! (length x - 1) = Fin 0"
  using vibrato_finite [OF assms(1,2), of x mf] assms(3) by fastforce

theorem vibrato_last_sample_zero_witness:
  "(10::real) \<noteq> 0 \<and> 0 \<le> round_half_even (2 / 10 * 10) \<and> [Fin 4, Fin 5, Fin 6] \<noteq> [] \<and>
   (\<exists>y. vibrato [Fin 4, Fin 5, Fin 6] (Fin 10) (Fin 5) (Fin (2 / 10)) = Inr y \<and>
        length y = length [Fin 4, Fin 5, Fin 6] \<and> y ! (length [Fin 4, Fin 5, Fin 6] - 1) = Fin 0)"
proof -
  have h1: "(10::real) \<noteq> 0" by simp
  have h2: "0 \<le> round_half_even (2 / 10 * 10)" by (simp add: round_half_even_def)
  have h3: "[Fin 4, Fin 5, Fin 6] \<noteq> []" by simp
  from vibrato_last_sample_zero [OF h1 h2 h3, of 5] h1 h2 h3 show ?thesis by blast
qed

text \<open>
  C7. On the same parameters, \<open>vibrato\<close> returns an output as long as its input, and on the
  empty input it returns the empty output, with no error.
\<close>

theorem vibrato_preserves_length:
  assumes "sr \<noteq> 0" and "0 \<le> round_half_even (w * sr)"
  shows "(\<exists>y. vibrato x (Fin sr) (Fin mf) (Fin w) = Inr y \<and> length y = length x) \<and>
         vibrato [] (Fin sr) (Fin mf) (Fin w) = Inr []"
proof
  show "\<exists>y. vibrato x (Fin sr) (Fin mf) (Fin w) = Inr y \<and> length y = length x"
    using vibrato_finite [OF assms, of x mf] by blast
  show "vibrato [] (Fin sr) (Fin mf) (Fin w) = Inr []"
    using vibrato_finite [OF assms, of "[]" mf] by auto
qed

theorem vibrato_preserves_length_witness:
  "(10::real) \<noteq> 0 \<and> 0 \<le> round_half_even (2 / 10 * 10) \<and>
   (\<exists>y. vibrato [Fin 4, Fin 5, Fin 6] (Fin 10) (Fin 5) (Fin (2 / 10)) = Inr y \<and>
        length y = length [Fin 4, Fin 5, Fin 6]) \<and>
   vibrato [] (Fin 10) (Fin 5) (Fin (2 / 10)) = Inr []"
proof -
  have h1: "(10::real) \<noteq> 0" by simp
  have h2: "0 \<le> round_half_even (2 / 10 * 10)" by (simp add: round_half_even_def)
  from vibrato_preserves_length [OF h1 h2, of "[Fin 4, Fin 5, Fin 6]" 5] h1 h2 show ?thesis by blast
qed

section \<open>Several channels\<close>

lemma each_column_Inr:
  "each_column f cs = Inr out \<Longrightarrow>
   length out = length cs \<and> (\<forall>k < length cs. f (cs ! k) = Inr (out ! k))"
proof (induction cs arbitrary: out)
  case Nil
  then show ?case by simp
next
  case (Cons c cs)
  from Cons.prems obtain r rs where
    r: "f c = Inr r" and rs: "each_column f cs = Inr rs" and out: "out = r # rs"
    by (auto split: sum.splits)
  from Cons.IH [OF rs] r out show ?case
    by (auto simp: nth_Cons split: nat.splits)
qed

lemma each_column_total:
  "(\<And>c. c \<in> set cs \<Longrightarrow> \<exists>r. f c = Inr r) \<Longrightarrow> \<exists>out. each_column f cs = Inr out"
proof (induction cs)
  case Nil
  then show ?case by simp
next
  case (Cons c cs)
  then obtain r where "f c = Inr r" by (meson list.set_intros(1))
  moreover from Cons obtain rs where "each_column f cs = Inr rs" by (meson list.set_intros(2))
  ultimately show ?case by simp
qed

text \<open>
  C9. On the same parameters, for data of at least one column: the result has as many
  columns as the data, column \<open>k\<close> of the result is \<open>vibrato\<close> run on column \<open>k\<close> of the data
  alone (its own delay line, allocated as zeros inside the call) and has the length of that
  column. So no column of the result depends on another column of the data.
\<close>

theorem process_audio_file_channels:
  assumes "sr \<noteq> 0" and "0 \<le> round_half_even (w * sr)" and "columns \<noteq> []"
  shows "\<exists>out. process_audio_file (Multi columns) (Fin sr) (Fin mf) (Fin w) = Inr (Multi out) \<and>
           length out = length columns \<and>
           (\<forall>k < length columns.
              vibrato (columns ! k) (Fin sr) (Fin mf) (Fin w) = Inr (out ! k) \<and>
              length (out ! k) = length (columns ! k))"
proof -
  let ?f = "\<lambda>c. vibrato c (Fin sr) (Fin mf) (Fin w)"
  have ok: "\<exists>y. ?f c = Inr y \<and> length y = length c" for c
    using vibrato_finite [OF assms(1,2), of c mf] by blast
  then obtain out where out: "each_column ?f columns = Inr out"
    using each_column_total [of columns ?f] by blast
  then have len: "length out = length columns"
    and each: "\<forall>k < length columns. ?f (columns ! k) = Inr (out ! k)"
    using each_column_Inr [OF out] by simp_all
  have "length (out ! k) = length (columns ! k)" if "k < length columns" for k
    using ok [of "columns ! k"] each that by auto
  moreover have "process_audio_file (Multi columns) (Fin sr) (Fin mf) (Fin w) = Inr (Multi out)"
    using out assms(3) by (simp add: process_audio_file_def apply_along_axis_def)
  ultimately show ?thesis using len each by blast
qed

theorem process_audio_file_channels_witness:
  "(10::real) \<noteq> 0 \<and> 0 \<le> round_half_even (2 / 10 * 10) \<and>
   [[Fin 0, Fin 0, Fin 0], [Fin 1, Fin 0, Fin 0]] \<noteq> [] \<and>
   (\<exists>out. process_audio_file (Multi [[Fin 0, Fin 0, Fin 0], [Fin 1, Fin 0, Fin 0]])
            (Fin 10) (Fin 5) (Fin (2 / 10)) = Inr (Multi out) \<and>
      length out = length [[Fin 0, Fin 0, Fin 0], [Fin 1, Fin 0, Fin 0]] \<and>
      (\<forall>k < length [[Fin 0, Fin 0, Fin 0], [Fin 1, Fin 0, Fin 0]].
         vibrato ([[Fin 0, Fin 0, Fin 0], [Fin 1, Fin 0, Fin 0]] ! k) (Fin 10) (Fin 5) (Fin (2 / 10))
           = Inr (out ! k) \<and>
         length (out ! k) = length ([[Fin 0, Fin 0, Fin 0], [Fin 1, Fin 0, Fin 0]] ! k)))"
proof -
  have h1: "(10::real) \<noteq> 0" by simp
  have h2: "0 \<le> round_half_even (2 / 10 * 10)" by (simp add: round_half_even_def)
  have h3: "[[Fin 0, Fin 0, Fin 0], [Fin 1, Fin 0, Fin 0]] \<noteq> []" by simp
  from process_audio_file_channels [OF h1 h2 h3, of 5] h1 h2 h3 show ?thesis by blast
qed

section \<open>Parameters that are not finite\<close>

lemma fmul_nonfinite: "nonfinite b \<Longrightarrow> nonfinite (fmul a b)"
  by (cases a; cases b) (simp_all add: inf_of_sign_def)

lemma py_round_nonfinite: "nonfinite a \<Longrightarrow> py_round a = Inl RoundNaN \<or> py_round a = Inl RoundInf"
  by (cases a) simp_all

lemma fdiv_finite_divisor: "sr \<noteq> 0 \<Longrightarrow> \<exists>m. fdiv a (Fin sr) = Inr m"
  by (cases a) simp_all

lemmas vib_defs = vibrato_def vibrato_body_def round_half_even_def np_zeros_def zeros_like_def
  py_range_def loop_body_def tap_of_def tap_index_def tap_frac_def push_def slice_to_def
  interpolate_def np_index_def np_setitem_def fsub_def Let_def

lemma sin_quarter_turns:
  "sin (3 * pi / 2) = - 1" "sin (9 * pi / 2) = 1" "sin (15 * pi / 2) = - 1"
  "sin (3 * pi) = 0" "sin (6 * pi) = 0"
  using sin_cos_npi [of 1] sin_cos_npi [of 4] sin_cos_npi [of 7] sin_npi [of 3] sin_npi [of 6]
  by simp_all

text \<open>
  C5 as stated fails: nothing in \<open>vibrato\<close> looks at the modulation frequency before the
  loop. With a NaN modulation frequency and a one-sample input the call returns the
  zero-filled output and raises nothing.
\<close>

theorem vibrato_nan_modfreq_counterexample:
  "nonfinite NaN \<and> vibrato [Fin 5] (Fin 10) NaN (Fin (2 / 10)) = Inr [Fin 0]"
  by (simp add: vib_defs)

text \<open>
  C5, amended. A sample rate that is NaN or infinite makes \<open>Width * SAMPLERATE\<close> NaN or
  infinite, and \<open>round\<close> raises on it (ValueError for NaN, OverflowError for an infinity)
  before any output exists. A modulation frequency that is NaN or infinite is not checked:
  with a finite non-zero sample rate, \<open>round(w * sr) \<ge> 0\<close> and an input of at most one
  sample, the loop body never runs and the call returns the zero-filled output.
\<close>

theorem vibrato_nonfinite_parameters:
  "(nonfinite SAMPLERATE \<longrightarrow>
      vibrato x SAMPLERATE Modfreq Width = Inl RoundNaN \<or>
      vibrato x SAMPLERATE Modfreq Width = Inl RoundInf) \<and>
   (nonfinite Modfreq \<and> sr \<noteq> 0 \<and> 0 \<le> round_half_even (w * sr) \<and> length x \<le> 1 \<longrightarrow>
      vibrato x (Fin sr) Modfreq (Fin w) = Inr (zeros_like x))"
proof (intro conjI impI)
  assume "nonfinite SAMPLERATE"
  then have "nonfinite (fmul Width SAMPLERATE)" by (rule fmul_nonfinite)
  then have "py_round (fmul Width SAMPLERATE) = Inl RoundNaN \<or>
             py_round (fmul Width SAMPLERATE) = Inl RoundInf"
    by (rule py_round_nonfinite)
  then show "vibrato x SAMPLERATE Modfreq Width = Inl RoundNaN \<or>
             vibrato x SAMPLERATE Modfreq Width = Inl RoundInf"
    by (auto simp: vibrato_def Let_def)
next
  assume a: "nonfinite Modfreq \<and> sr \<noteq> 0 \<and> 0 \<le> round_half_even (w * sr) \<and> length x \<le> 1"
  then obtain m where m: "fdiv Modfreq (Fin sr) = Inr m"
    using fdiv_finite_divisor [of sr Modfreq] by blast
  have rng: "py_range (int (length x) - 1) = []" using a by (simp add: py_range_def)
  show "vibrato x (Fin sr) Modfreq (Fin w) = Inr (zeros_like x)"
    using a m rng by (simp add: vibrato_def vibrato_body_def Let_def np_zeros_def)
qed

theorem vibrato_nonfinite_parameters_witness:
  "nonfinite PInf \<and>
   (vibrato [Fin 5] PInf NInf (Fin (2 / 10)) = Inl RoundNaN \<or>
    vibrato [Fin 5] PInf NInf (Fin (2 / 10)) = Inl RoundInf) \<and>
   (nonfinite NInf \<and> (10::real) \<noteq> 0 \<and> 0 \<le> round_half_even (2 / 10 * 10) \<and> length [Fin 5] \<le> 1) \<and>
   vibrato [Fin 5] (Fin 10) NInf (Fin (2 / 10)) = Inr (zeros_like [Fin 5])"
proof -
  have h1: "nonfinite PInf" by simp
  have h2: "nonfinite NInf \<and> (10::real) \<noteq> 0 \<and> 0 \<le> round_half_even (2 / 10 * 10) \<and> length [Fin 5] \<le> 1"
    by (simp add: round_half_even_def)
  from vibrato_nonfinite_parameters [where SAMPLERATE = PInf and x = "[Fin 5]" and Modfreq = NInf
      and Width = "Fin (2 / 10)" and sr = 10 and w = "2 / 10"]
  show ?thesis using h1 h2 by blast
qed

section \<open>The code at two inputs\<close>

text \<open>
  C2. The ramp \<open>[0, 1, \<dots>, 9]\<close> at sample rate 10, modulation frequency 0 and width 0.2 s:
  \<open>DELAY = WIDTH = 2\<close>, the tap is 2 at every sample, \<open>frac = 0\<close>, so the whole weight is on
  index \<open>i - 1 = 1\<close>. The output is the input delayed by one sample, \<open>y[n] = x[n - 1]\<close> for
  \<open>1 \<le> n < 9\<close>, and not by \<open>DELAY = 2\<close> samples.
\<close>

theorem vibrato_ramp_delayed_by_one:
  "vibrato [Fin 0, Fin 1, Fin 2, Fin 3, Fin 4, Fin 5, Fin 6, Fin 7, Fin 8, Fin 9]
     (Fin 10) (Fin 0) (Fin (2 / 10))
   = Inr [Fin 0, Fin 0, Fin 1, Fin 2, Fin 3, Fin 4, Fin 5, Fin 6, Fin 7, Fin 0]"
  by (simp add: vib_defs upt_conv_Cons)

text \<open>
  C4. Sample rate 4, modulation frequency 3, width 0.25 s (\<open>DELAY = WIDTH = 1\<close>, \<open>L = 5\<close>)
  and the input \<open>[1, \<dots>, 7]\<close>: at \<open>n = 5\<close> the sine is \<open>-1\<close>, the tap is 0, \<open>i = 0\<close> and the
  second read is at index \<open>i - 1 = -1\<close>, outside \<open>[0, L - 1]\<close>. The array takes \<open>-1\<close> for its
  last slot, so \<open>y[5]\<close> is \<open>x[1] = 2\<close>, the oldest sample in the line, and no error is
  raised.
\<close>

theorem tap_below_one_reads_last_slot:
  "tap_of 1 1 (Fin (3 / 4)) 5 = Fin 0 \<and>
   tap_index (tap_of 1 1 (Fin (3 / 4)) 5) - 1 = - 1 \<and>
   vibrato [Fin 1, Fin 2, Fin 3, Fin 4, Fin 5, Fin 6, Fin 7] (Fin 4) (Fin 3) (Fin (1 / 4))
   = Inr [Fin 1, Fin 0, Fin 3, Fin 3, Fin 5, Fin 2, Fin 0]"
  by (simp add: vib_defs upt_conv_Cons sin_quarter_turns)

end
